theory Spec2Isabelle
  imports Main "HOL-Library.AList"
begin

section \<open>JavaScript values\<close>

text \<open>
  The values the SDK handles. Numbers are the doubles with an integral value (\<open>Fin i\<close>)
  and \<open>NaN\<close>: the code only asks of a number whether it is one, whether it is truthy
  and what it prints as, and \<open>parseInt\<close> yields nothing else. \<open>JObj\<close> is a plain
  object given by its own properties in insertion order, the first binding of a key being
  the one in force. \<open>JErr m\<close> is \<open>new Error(m)\<close>, \<open>JTypeError m\<close> the
  \<open>TypeError\<close> the engine throws, \<open>JRef r\<close> the Connection
  object at address \<open>r\<close>, and \<open>JBuiltin k\<close> the value every plain object inherits
  from \<open>Object.prototype\<close> under the name \<open>k\<close>. Wrapper objects such as
  \<open>new Number(5)\<close> are not among the values.
\<close>

datatype jsnum = NaN | Fin int

datatype jsval =
    JUndefined
  | JNull
  | JBool bool
  | JNum jsnum
  | JStr string
  | JObj "(string \<times> jsval) list"
  | JErr string
  | JTypeError string
  | JRef nat
  | JBuiltin string

text \<open>Truthiness, as \<open>if (v)\<close>, \<open>!v\<close> and \<open>a || b\<close> test it.\<close>

fun truthy :: "jsval \<Rightarrow> bool" where
  "truthy JUndefined = False"
| "truthy JNull = False"
| "truthy (JBool b) = b"
| "truthy (JNum NaN) = False"
| "truthy (JNum (Fin i)) = (i \<noteq> 0)"
| "truthy (JStr s) = (s \<noteq> [])"
| "truthy (JObj kvs) = True"
| "truthy (JErr m) = True"
| "truthy (JTypeError m) = True"
| "truthy (JRef r) = True"
| "truthy (JBuiltin k) = True"

definition js_or :: "jsval \<Rightarrow> jsval \<Rightarrow> jsval" where
  "js_or a b = (if truthy a then a else b)"

text \<open>
  lodash's type tests. \<open>_.isNumber\<close> is \<open>typeof value == 'number'\<close>, which holds of
  \<open>NaN\<close> as of every other number.
\<close>

fun isNumber :: "jsval \<Rightarrow> bool" where
  "isNumber (JNum n) = True"
| "isNumber v = False"

fun isString :: "jsval \<Rightarrow> bool" where
  "isString (JStr s) = True"
| "isString v = False"

fun isObject :: "jsval \<Rightarrow> bool" where
  "isObject (JObj kvs) = True"
| "isObject (JErr m) = True"
| "isObject (JTypeError m) = True"
| "isObject (JRef r) = True"
| "isObject (JBuiltin k) = True"
| "isObject v = False"

subsection \<open>Printing numbers\<close>

definition digit_char :: "nat \<Rightarrow> char" where
  "digit_char d = ''0123456789'' ! (d mod 10)"

function string_of_nat :: "nat \<Rightarrow> string" where
  "string_of_nat n =
     (if n < 10 then [digit_char n] else string_of_nat (n div 10) @ [digit_char (n mod 10)])"
  by pat_completeness auto
termination
  by (relation "measure id") auto

declare string_of_nat.simps [simp del]

definition string_of_int :: "int \<Rightarrow> string" where
  "string_of_int i = (if i < 0 then CHR ''-'' # string_of_nat (nat (- i)) else string_of_nat (nat i))"

text \<open>\<open>Number.prototype.toString()\<close> on the numbers of the model.\<close>

fun num_toString :: "jsnum \<Rightarrow> string" where
  "num_toString NaN = ''NaN''"
| "num_toString (Fin i) = string_of_int i"

text \<open>
  \<open>v.toString()\<close> as the folder methods call it on a value they have checked with
  \<open>_.isNumber\<close>; on any other value the model returns the value unchanged, a case the
  methods never reach.
\<close>

fun toString_id :: "jsval \<Rightarrow> jsval" where
  "toString_id (JNum n) = JStr (num_toString n)"
| "toString_id v = v"

section \<open>Effects\<close>

text \<open>
  What a call does to the outside is recorded as a trace of events, in the order the code
  performs them. \<open>Connection.request\<close> lives in the connector module; a resource method's
  call of it is the event \<open>Connection_request\<close> carrying the arguments it was given
  (the callback apart, which is always the caller's \<open>done\<close>). \<open>Done_called args\<close>
  is a call of the caller's callback, \<open>Http_post url form json\<close> a call of
  \<open>request.post\<close>, \<open>Waiter_notified cb args\<close> the call of the callback that was
  registered through \<open>ready\<close> under the number \<open>cb\<close>.
\<close>

record request_args =
  path_segments :: "jsval list"
  http_method :: string
  query_opts :: jsval
  body_fields :: jsval
  extra_fields :: jsval
  req_headers :: jsval

datatype event =
    Connection_request request_args
  | Done_called "jsval list"
  | Http_post string jsval bool
  | Console_log "jsval list"
  | Log_debug string
  | Server_close
  | Socket_destroy string
  | Waiter_notified nat "jsval list"

definition request :: "jsval list \<Rightarrow> string \<Rightarrow> jsval \<Rightarrow> jsval \<Rightarrow> jsval \<Rightarrow> jsval \<Rightarrow> event list" where
  "request p m opts body extra headers =
     [Connection_request \<lparr>path_segments = p, http_method = m, query_opts = opts,
        body_fields = body, extra_fields = extra, req_headers = headers\<rparr>]"

definition done_error :: "string \<Rightarrow> event list" where
  "done_error msg = [Done_called [JErr msg]]"

section \<open>Folder methods of a Connection\<close>

definition getFolderInfo :: "jsval \<Rightarrow> jsval \<Rightarrow> event list" where
  "getFolderInfo fid headers =
     (if \<not> isNumber fid then done_error ''id must be specified.''
      else request [JStr ''folders'', fid] ''get'' JNull JNull JNull headers)"

definition getFolderItems :: "jsval \<Rightarrow> jsval \<Rightarrow> jsval \<Rightarrow> event list" where
  "getFolderItems fid opts headers =
     (if \<not> isNumber fid then done_error ''id must be specified.''
      else request [JStr ''folders'', fid, JStr ''items''] ''get'' opts JNull JNull headers)"

definition createFolder :: "jsval \<Rightarrow> jsval \<Rightarrow> jsval \<Rightarrow> event list" where
  "createFolder name parent_id headers =
     (if \<not> isString name \<or> \<not> isNumber parent_id
      then done_error ''Invalid params. Required - name: string, parent_id: number''
      else request [JStr ''folders''] ''post'' JNull
             (JObj [(''name'', name), (''parent'', JObj [(''id'', toString_id parent_id)])])
             JNull headers)"

definition updateFolder :: "jsval \<Rightarrow> jsval \<Rightarrow> jsval \<Rightarrow> event list" where
  "updateFolder fid flds headers =
     (if \<not> isNumber fid then done_error ''id must be specified.''
      else if \<not> isObject flds then done_error ''An fields object must be provided.''
      else request [JStr ''folders'', fid] ''put'' JNull flds JNull headers)"

definition deleteFolder :: "jsval \<Rightarrow> jsval \<Rightarrow> jsval \<Rightarrow> event list" where
  "deleteFolder fid opts headers =
     (if \<not> isNumber fid then done_error ''id must be specified.''
      else request [JStr ''folders'', fid] ''delete'' opts JNull JNull headers)"

definition copyFolder :: "jsval \<Rightarrow> jsval \<Rightarrow> jsval \<Rightarrow> jsval \<Rightarrow> event list" where
  "copyFolder fid parent_id name headers =
     (if \<not> isNumber fid \<or> \<not> isNumber parent_id
      then done_error ''Invalid params. Required - id: number, parent_id: number''
      else
        let opts = [(''parent'', JObj [(''id'', toString_id parent_id)])];
            opts = (if truthy name then opts @ [(''name'', name)] else opts)
        in request [JStr ''folders'', fid, JStr ''copy''] ''post'' JNull (JObj opts) JNull headers)"

definition folderSharedLink :: "jsval \<Rightarrow> jsval \<Rightarrow> jsval \<Rightarrow> event list" where
  "folderSharedLink fid opts headers =
     (if \<not> isNumber fid then done_error ''id must be specified.''
      else request [JStr ''folders'', fid] ''put'' JNull (JObj [(''shared_link'', opts)])
             JNull headers)"

definition getFolderCollaborations :: "jsval \<Rightarrow> jsval \<Rightarrow> event list" where
  "getFolderCollaborations fid headers =
     (if \<not> isNumber fid then done_error ''id must be specified.''
      else request [JStr ''folders'', fid, JStr ''collaborations''] ''get'' JNull JNull JNull headers)"

definition getTrashedItems :: "jsval \<Rightarrow> jsval \<Rightarrow> event list" where
  "getTrashedItems opts headers =
     request [JStr ''folders'', JStr ''trash'', JStr ''items''] ''get'' opts JNull JNull headers"

definition getTrashedFolder :: "jsval \<Rightarrow> jsval \<Rightarrow> event list" where
  "getTrashedFolder fid headers =
     (if \<not> isNumber fid then done_error ''id must be specified.''
      else request [JStr ''folders'', fid, JStr ''trash''] ''get'' JNull JNull JNull headers)"

definition deleteTrashedFolder :: "jsval \<Rightarrow> jsval \<Rightarrow> event list" where
  "deleteTrashedFolder fid headers =
     (if \<not> isNumber fid then done_error ''id must be specified.''
      else request [JStr ''folders'', fid, JStr ''trash''] ''delete'' JNull JNull JNull headers)"

definition restoreTrashedFolder :: "jsval \<Rightarrow> jsval \<Rightarrow> jsval \<Rightarrow> jsval \<Rightarrow> event list" where
  "restoreTrashedFolder fid name parent_id headers =
     (if \<not> isString name \<or> \<not> isNumber parent_id
      then done_error ''Invalid params. Required - name: string, parent_id: number''
      else
        let opts = [];
            opts = (if truthy name then opts @ [(''name'', name)] else opts);
            opts = (if truthy parent_id
                    then opts @ [(''parent'', JObj [(''id'', toString_id parent_id)])] else opts)
        in request [JStr ''folders'', fid] ''post'' JNull (JObj opts) JNull headers)"

text \<open>The events of a trace that are dispatches through \<open>Connection.request\<close>.\<close>

fun is_dispatch :: "event \<Rightarrow> bool" where
  "is_dispatch (Connection_request r) = True"
| "is_dispatch e = False"

definition dispatches :: "event list \<Rightarrow> event list" where
  "dispatches tr = filter is_dispatch tr"

section \<open>Objects, property keys and \<open>parseInt\<close>\<close>

text \<open>
  The properties every plain object (\<open>{}\<close>) inherits from \<open>Object.prototype\<close>. A read
  \<open>obj[k]\<close> that finds no own property \<open>k\<close> falls back on them, and each of them is a
  function or an object, hence truthy.
\<close>

definition object_prototype_keys :: "string list" where
  "object_prototype_keys =
     [''constructor'', ''toString'', ''toLocaleString'', ''valueOf'', ''hasOwnProperty'',
      ''isPrototypeOf'', ''propertyIsEnumerable'', ''__proto__'', ''__defineGetter__'',
      ''__defineSetter__'', ''__lookupGetter__'', ''__lookupSetter__'']"

definition inherited :: "string \<Rightarrow> jsval" where
  "inherited k = (if k \<in> set object_prototype_keys then JBuiltin k else JUndefined)"

definition obj_get :: "(string \<times> jsval) list \<Rightarrow> string \<Rightarrow> jsval" where
  "obj_get own k = (case map_of own k of Some v \<Rightarrow> v | None \<Rightarrow> inherited k)"

text \<open>
  \<open>v.k\<close> for a fixed name \<open>k\<close>. The program reads only names that neither a primitive's
  wrapper nor an Error carries (\<open>client_id\<close>, \<open>port\<close>, \<open>login\<close>, ...), so apart from
  plain objects only the inherited properties are modelled. On \<open>undefined\<close> and
  \<open>null\<close> the read throws; the callers below test for that before they read.
\<close>

fun get_prop :: "jsval \<Rightarrow> string \<Rightarrow> jsval" where
  "get_prop (JObj own) k = obj_get own k"
| "get_prop JUndefined k = JUndefined"
| "get_prop JNull k = JUndefined"
| "get_prop v k = inherited k"

definition nullish :: "jsval \<Rightarrow> bool" where
  "nullish v = (v = JUndefined \<or> v = JNull)"

text \<open>\<open>ToString\<close>, which also turns a value into the property key of \<open>obj[v]\<close>.\<close>

fun to_key :: "jsval \<Rightarrow> string" where
  "to_key JUndefined = ''undefined''"
| "to_key JNull = ''null''"
| "to_key (JBool b) = (if b then ''true'' else ''false'')"
| "to_key (JNum n) = num_toString n"
| "to_key (JStr s) = s"
| "to_key (JObj own) = ''[object Object]''"
| "to_key (JErr m) = (if m = [] then ''Error'' else ''Error: '' @ m)"
| "to_key (JTypeError m) = (if m = [] then ''TypeError'' else ''TypeError: '' @ m)"
| "to_key (JRef r) = ''[object Object]''"
| "to_key (JBuiltin k) =
     (if k = ''__proto__'' then ''[object Object]'' else ''function '' @ k @ ''() { [native code] }'')"

text \<open>
  \<open>parseInt(v, 10)\<close>: the string of \<open>v\<close> without its leading white space (the ASCII
  white space; strings are byte strings here), an optional sign, then the longest run of
  decimal digits; \<open>NaN\<close> when that run is empty.
\<close>

definition is_space :: "char \<Rightarrow> bool" where
  "is_space c = (c \<in> set [CHR '' '', CHR 0x09, CHR 0x0A, CHR 0x0B, CHR 0x0C, CHR 0x0D])"

definition is_digit :: "char \<Rightarrow> bool" where
  "is_digit c = (c \<in> set ''0123456789'')"

definition digits_value :: "string \<Rightarrow> nat" where
  "digits_value ds = foldl (\<lambda>acc c. 10 * acc + (of_char c - 48)) 0 ds"

definition parseInt :: "jsval \<Rightarrow> jsnum" where
  "parseInt v =
     (let s = dropWhile is_space (to_key v);
          negative = (s \<noteq> [] \<and> hd s = CHR ''-'');
          s = (if s \<noteq> [] \<and> (hd s = CHR ''+'' \<or> hd s = CHR ''-'') then tl s else s);
          z = takeWhile is_digit s
      in if z = [] then NaN
         else if negative then Fin (- int (digits_value z)) else Fin (int (digits_value z)))"

section \<open>Connections\<close>

text \<open>
  The Connection class is defined in the connector module, which is not among the source
  files at hand; the box module constructs Connections and calls \<open>_setTokens\<close> and
  \<open>emit\<close> on them.
\<close>

datatype token_state = UNSET | PENDING | READY | ERROR

record connection =
  email :: jsval
  access_token :: jsval
  conn_refresh_token :: jsval
  token_state :: token_state
  waiters :: "nat list"

text \<open>
  Modelled from the spec: the constructor \<open>new Connection(box, email)\<close> of the connector
  module. The AccountSession of a new Connection is bound to its account identifier, holds
  no tokens, is in state UNSET and has no waiter.
\<close>

definition new_connection :: "jsval \<Rightarrow> connection" where
  "new_connection e =
     \<lparr>email = e, access_token = JUndefined, conn_refresh_token = JUndefined,
      token_state = UNSET, waiters = []\<rparr>"

text \<open>
  Modelled from the spec: \<open>Connection.ready(callback)\<close> of the connector module. It
  invokes the callback at once if the state is READY; otherwise it registers the callback
  as a one-shot listener for the next READY or ERROR transition.
\<close>

definition ready :: "connection \<Rightarrow> nat \<Rightarrow> connection \<times> event list" where
  "ready c cb =
     (if token_state c = READY then (c, [Waiter_notified cb []])
      else (c\<lparr>waiters := waiters c @ [cb]\<rparr>, []))"

text \<open>
  Modelled from the spec: the start of a token exchange (UNSET to PENDING, READY to
  PENDING) in the connector module.
\<close>

definition begin_exchange :: "connection \<Rightarrow> connection \<times> event list" where
  "begin_exchange c = (c\<lparr>token_state := PENDING\<rparr>, [])"

text \<open>
  Modelled from the spec: \<open>Connection._setTokens(tokens)\<close> of the connector module. The
  tokens are stored, the session becomes READY, and every waiter is notified once, with no
  error, and deregistered.
\<close>

definition setTokens :: "connection \<Rightarrow> jsval \<Rightarrow> connection \<times> event list" where
  "setTokens c tokens =
     (c\<lparr>access_token := get_prop tokens ''access_token'',
        conn_refresh_token := get_prop tokens ''refresh_token'',
        token_state := READY, waiters := []\<rparr>,
      map (\<lambda>cb. Waiter_notified cb []) (waiters c))"

text \<open>
  Modelled from the spec: \<open>Connection.emit('tokens.error', err)\<close> of the connector
  module. The session becomes ERROR, and every waiter is notified once, with the error as
  argument, and deregistered.
\<close>

definition emit_tokens_error :: "connection \<Rightarrow> jsval \<Rightarrow> connection \<times> event list" where
  "emit_tokens_error c err =
     (c\<lparr>token_state := ERROR, waiters := []\<rparr>, map (\<lambda>cb. Waiter_notified cb [err]) (waiters c))"

text \<open>The operations on one session, and a run of them from left to right.\<close>

datatype session_op = Ready nat | Begin_exchange | Set_tokens jsval | Tokens_error jsval

fun session_step :: "connection \<Rightarrow> session_op \<Rightarrow> connection \<times> event list" where
  "session_step c (Ready cb) = ready c cb"
| "session_step c Begin_exchange = begin_exchange c"
| "session_step c (Set_tokens tokens) = setTokens c tokens"
| "session_step c (Tokens_error err) = emit_tokens_error c err"

fun run_session :: "connection \<Rightarrow> session_op list \<Rightarrow> connection \<times> event list" where
  "run_session c [] = (c, [])"
| "run_session c (x # xs) =
     (let (c1, tr1) = session_step c x; (c2, tr2) = run_session c1 xs in (c2, tr1 @ tr2))"

fun terminal :: "session_op \<Rightarrow> bool" where
  "terminal (Set_tokens tokens) = True"
| "terminal (Tokens_error err) = True"
| "terminal x = False"

fun notifies :: "nat \<Rightarrow> event \<Rightarrow> bool" where
  "notifies cb (Waiter_notified cb' args) = (cb' = cb)"
| "notifies cb e = False"

definition count_notified :: "nat \<Rightarrow> event list \<Rightarrow> nat" where
  "count_notified cb tr = length (filter (notifies cb) tr)"

section \<open>The Box client\<close>

record log_handle =
  log_level :: jsval
  log_stream :: jsval

text \<open>
  The listener: \<open>close()\<close> of a server that is listening stops it; on one that is not
  listening it throws \<open>Error('Not running')\<close>. \<open>destroy()\<close> of a socket does not throw.
\<close>

record http_server =
  listening :: bool

record socket =
  destroyed :: bool

definition server_close :: "http_server \<Rightarrow> jsval + http_server" where
  "server_close srv = (if listening srv then Inr (srv\<lparr>listening := False\<rparr>) else Inl (JErr ''Not running''))"

definition socket_destroy :: "socket \<Rightarrow> socket" where
  "socket_destroy so = so\<lparr>destroyed := True\<rparr>"

text \<open>
  A Box object. \<open>connections\<close> holds the own properties of the registry object, whose
  values are references into \<open>heap\<close>, the Connection objects of this client in the order
  of their creation. A field the constructor has not assigned is \<open>JUndefined\<close> or
  \<open>None\<close>.
\<close>

record box =
  connections :: "(string \<times> jsval) list"
  port :: jsval
  host :: jsval
  log :: "log_handle option"
  client_id :: jsval
  client_secret :: jsval
  refresh_token :: jsval
  server :: "http_server option"
  sockets :: "(string \<times> socket) list option"
  heap :: "connection list"

definition blank_box :: box where
  "blank_box =
     \<lparr>connections = [], port = JUndefined, host = JUndefined, log = None,
      client_id = JUndefined, client_secret = JUndefined, refresh_token = JUndefined,
      server = None, sockets = None, heap = []\<rparr>"

text \<open>
  The constructor. \<open>Inl e\<close> is the exception \<open>e\<close> thrown, which in every case precedes
  the first effect; \<open>Inr\<close> carries the constructed object and the trace. The callback
  handed to \<open>request.post\<close> runs later, when the response arrives: it is
  \<open>token_response\<close> below.
\<close>

definition init :: "jsval \<Rightarrow> jsval \<Rightarrow> jsval \<Rightarrow> jsval + box \<times> event list" where
  "init opts logLevel logStream =
     (let self = blank_box\<lparr>connections := []\<rparr> in
      if truthy opts then
        if \<not> truthy (get_prop opts ''client_id'') then Inl (JErr ''Must specify a client_id'')
        else if \<not> truthy (get_prop opts ''client_secret'')
        then Inl (JErr ''Must specify a client_secret'')
        else
          let self = self\<lparr>port := JNum (parseInt (get_prop opts ''port''))\<rparr> in
          if \<not> isNumber (port self) then Inl (JErr ''Must specify a numeric port'')
          else
            let self = self\<lparr>host := js_or (get_prop opts ''host'') (JStr ''localhost'')\<rparr>;
                self = self\<lparr>log := Some \<lparr>log_level = js_or logLevel (JStr ''info''),
                                         log_stream = logStream\<rparr>\<rparr>;
                self = self\<lparr>client_id := get_prop opts ''client_id''\<rparr>;
                self = self\<lparr>client_secret := get_prop opts ''client_secret''\<rparr>;
                self = self\<lparr>refresh_token := get_prop opts ''refresh_token''\<rparr>;
                tokenParams = JObj [(''client_id'', client_id self),
                                    (''client_secret'', client_secret self),
                                    (''grant_type'', JStr ''refresh_token''),
                                    (''refresh_token'', refresh_token self)];
                authUrl = ''https://app.box.com/api/oauth2/token''
            in Inr (self, [Http_post authUrl tokenParams True])
      else Inr (self, []))"

definition getConnection :: "box \<Rightarrow> jsval \<Rightarrow> jsval \<times> box" where
  "getConnection self e =
     (let k = to_key e in
      if truthy (obj_get (connections self) k) then (obj_get (connections self) k, self)
      else
        let r = length (heap self);
            self = self\<lparr>heap := heap self @ [new_connection e]\<rparr>;
            self = self\<lparr>connections := AList.update k (JRef r) (connections self)\<rparr>
        in (JRef r, self))"

text \<open>
  The callback of \<open>request.post\<close> in the constructor, called with \<open>(err, res, body)\<close>.
  The result is the client after the call, the trace, and the exception that escapes the
  callback, if one does. Calling a method on \<open>undefined\<close> throws a TypeError.
\<close>

definition token_response :: "box \<Rightarrow> jsval \<Rightarrow> jsval \<Rightarrow> box \<times> event list \<times> jsval option" where
  "token_response self err body =
     (let tr = [Console_log [JStr (CHR 0x0A # ''TOKEN REFRESH: ''), body, JStr [CHR 0x0A]]];
          target = obj_get (connections self) ''ehgt''
      in if truthy err then
           (case target of
              JRef r \<Rightarrow>
                let (c, evs) = emit_tokens_error (heap self ! r) err
                in (self\<lparr>heap := (heap self)[r := c]\<rparr>, tr @ evs, None)
            | _ \<Rightarrow> (self, tr, Some (JTypeError ''Cannot call method emit of undefined'')))
         else
           (case target of
              JRef r \<Rightarrow>
                let (c, evs) = setTokens (heap self ! r) body
                in (self\<lparr>heap := (heap self)[r := c]\<rparr>, tr @ evs, None)
            | _ \<Rightarrow> (self, tr, Some (JTypeError ''Cannot call method _setTokens of undefined''))))"

text \<open>
  A caller's callback: given its arguments it returns a value (\<open>Inr\<close>) or throws
  (\<open>Inl\<close>).
\<close>

type_synonym callback = "jsval list \<Rightarrow> jsval + jsval"

text \<open>
  The function \<open>authenticate()\<close> returns, applied to
  \<open>(access_token, refresh_token, profile, done)\<close>: the client after the call, the trace,
  and what the call returns or throws.
\<close>

definition authenticate ::
  "box \<Rightarrow> jsval \<Rightarrow> jsval \<Rightarrow> jsval \<Rightarrow> callback \<Rightarrow> box \<times> event list \<times> (jsval + jsval)" where
  "authenticate self a_token r_token profile done =
     (if nullish profile
      then (self, [], Inl (JTypeError ''Cannot read property login of undefined''))
      else
        let e = get_prop profile ''login'';
            (conn, self) = getConnection self e
        in case conn of
             JRef r \<Rightarrow>
               let (c, evs) = setTokens (heap self ! r)
                                (JObj [(''access_token'', a_token), (''refresh_token'', r_token)]);
                   self = self\<lparr>heap := (heap self)[r := c]\<rparr>
               in (self, evs @ [Done_called [JNull, profile]], done [JNull, profile])
           | _ \<Rightarrow> (self, [], Inl (JTypeError ''Object has no method _setTokens'')))"

text \<open>
  \<open>stopServer(callback)\<close>: the client after the call, the trace, and the exception that
  escapes, if one does. \<open>_.forIn\<close> visits the tracked sockets in order and does nothing
  on \<open>undefined\<close>.
\<close>

definition destroy_all :: "(string \<times> socket) list \<Rightarrow> (string \<times> socket) list \<times> event list" where
  "destroy_all socks =
     (map (\<lambda>(k, so). (k, socket_destroy so)) socks, map (\<lambda>(k, so). Socket_destroy k) socks)"

definition stopServer :: "box \<Rightarrow> callback \<Rightarrow> box \<times> event list \<times> jsval option" where
  "stopServer self callback =
     (case server self of
        None \<Rightarrow> (self, [], None)
      | Some srv \<Rightarrow>
          (case log self of
             None \<Rightarrow> (self, [], Some (JTypeError ''Cannot call method debug of undefined''))
           | Some lg \<Rightarrow>
               let tr = [Log_debug ''Stopping server...''] in
               (case server_close srv of
                  Inl err \<Rightarrow>
                    (self, tr @ [Server_close, Done_called [err]],
                     (case callback [err] of Inl e \<Rightarrow> Some e | Inr v \<Rightarrow> None))
                | Inr srv' \<Rightarrow>
                    let self = self\<lparr>server := Some srv'\<rparr>;
                        (socks, evs) = (case sockets self of
                                          None \<Rightarrow> (None, [])
                                        | Some ss \<Rightarrow> (Some (fst (destroy_all ss)), snd (destroy_all ss)));
                        self = self\<lparr>sockets := socks\<rparr>;
                        tr = tr @ [Server_close] @ evs @ [Done_called []]
                    in (case callback [] of
                          Inr v \<Rightarrow> (self, tr, None)
                        | Inl err \<Rightarrow>
                            (self, tr @ [Done_called [err]],
                             (case callback [err] of Inl e \<Rightarrow> Some e | Inr v \<Rightarrow> None))))))"

text \<open>
  Modelled from the spec: \<open>Connection.getAuthURL()\<close> of the connector module, the string
  \<open>{authorize_endpoint}?response_type=code&client_id={id}&redirect_uri={callback}\<close>
  whose callback is an \<open>http\<close> URL on the client's host and port. The spec fixes
  neither the endpoint nor the path of the callback; both are parameters.
\<close>

definition callback_url :: "string \<Rightarrow> box \<Rightarrow> string" where
  "callback_url callback_path b = ''http://'' @ to_key (host b) @ '':'' @ to_key (port b) @ callback_path"

definition getAuthURL :: "string \<Rightarrow> string \<Rightarrow> box \<Rightarrow> string" where
  "getAuthURL authorize_endpoint callback_path b =
     authorize_endpoint @ ''?response_type=code&client_id='' @ to_key (client_id b)
       @ ''&redirect_uri='' @ callback_url callback_path b"

text \<open>
  A client is well formed when every entry of its registry refers to a Connection object
  that exists. The constructor establishes this and \<open>getConnection\<close> keeps it.
\<close>

fun valid_ref :: "connection list \<Rightarrow> jsval \<Rightarrow> bool" where
  "valid_ref h (JRef r) = (r < length h)"
| "valid_ref h v = False"

definition wf_box :: "box \<Rightarrow> bool" where
  "wf_box b = list_all (\<lambda>(k, v). valid_ref (heap b) v) (connections b)"

text \<open>Calling \<open>getConnection\<close> for each identifier of a list in turn.\<close>

fun getConnections :: "box \<Rightarrow> jsval list \<Rightarrow> box" where
  "getConnections b [] = b"
| "getConnections b (e # es) = getConnections (snd (getConnection b e)) es"

text \<open>Auxiliary notions for stating the properties below.\<close>

definition tracked :: "box \<Rightarrow> (string \<times> socket) list" where
  "tracked b = (case sockets b of None \<Rightarrow> [] | Some ss \<Rightarrow> ss)"

fun is_done :: "event \<Rightarrow> bool" where
  "is_done (Done_called args) = True"
| "is_done e = False"

fun registered :: "session_op list \<Rightarrow> nat list" where
  "registered [] = []"
| "registered (Ready cb # xs) = cb # registered xs"
| "registered (x # xs) = registered xs"

fun terminal_args :: "session_op \<Rightarrow> jsval list" where
  "terminal_args (Tokens_error err) = [err]"
| "terminal_args x = []"

section \<open>Validation of the folder id\<close>

lemma string_of_nat_digit: "n < 10 \<Longrightarrow> string_of_nat n = [digit_char n]"
  by (simp add: string_of_nat.simps)

lemma id_validated_getFolderInfo:
  "\<not> isNumber fid \<Longrightarrow> getFolderInfo fid h = [Done_called [JErr ''id must be specified.'']]"
  by (simp add: getFolderInfo_def done_error_def)

lemma id_validated_getFolderItems:
  "\<not> isNumber fid \<Longrightarrow> getFolderItems fid opts h = [Done_called [JErr ''id must be specified.'']]"
  by (simp add: getFolderItems_def done_error_def)

lemma id_validated_updateFolder:
  "\<not> isNumber fid \<Longrightarrow> updateFolder fid flds h = [Done_called [JErr ''id must be specified.'']]"
  by (simp add: updateFolder_def done_error_def)

lemma id_validated_deleteFolder:
  "\<not> isNumber fid \<Longrightarrow> deleteFolder fid opts h = [Done_called [JErr ''id must be specified.'']]"
  by (simp add: deleteFolder_def done_error_def)

lemma id_validated_copyFolder:
  "\<not> isNumber fid \<Longrightarrow> copyFolder fid parent_id name h =
     [Done_called [JErr ''Invalid params. Required - id: number, parent_id: number'']]"
  by (simp add: copyFolder_def done_error_def)

lemma id_validated_folderSharedLink:
  "\<not> isNumber fid \<Longrightarrow> folderSharedLink fid opts h = [Done_called [JErr ''id must be specified.'']]"
  by (simp add: folderSharedLink_def done_error_def)

lemma id_validated_getFolderCollaborations:
  "\<not> isNumber fid \<Longrightarrow> getFolderCollaborations fid h = [Done_called [JErr ''id must be specified.'']]"
  by (simp add: getFolderCollaborations_def done_error_def)

lemma id_validated_getTrashedFolder:
  "\<not> isNumber fid \<Longrightarrow> getTrashedFolder fid h = [Done_called [JErr ''id must be specified.'']]"
  by (simp add: getTrashedFolder_def done_error_def)

lemma id_validated_deleteTrashedFolder:
  "\<not> isNumber fid \<Longrightarrow> deleteTrashedFolder fid h = [Done_called [JErr ''id must be specified.'']]"
  by (simp add: deleteTrashedFolder_def done_error_def)

text \<open>
  Claim C1. Every folder method with a numeric id answers a non-numeric id with a
  validation error through the callback and dispatches nothing. Nine of the ten methods
  do (the lemmas above); \<open>restoreTrashedFolder\<close> checks \<open>name\<close> and \<open>parent_id\<close>
  but never \<open>id\<close>: called with the id \<open>'abc'\<close>, the name \<open>'docs'\<close> and the parent
  \<open>5\<close> it invokes no callback and dispatches a POST to \<open>folders/abc\<close>.
\<close>

theorem restoreTrashedFolder_id_unchecked:
  "\<not> isNumber (JStr ''abc'') \<and>
   restoreTrashedFolder (JStr ''abc'') (JStr ''docs'') (JNum (Fin 5)) JUndefined =
     [Connection_request \<lparr>path_segments = [JStr ''folders'', JStr ''abc''],
        http_method = ''post'', query_opts = JNull,
        body_fields = JObj [(''name'', JStr ''docs''), (''parent'', JObj [(''id'', JStr ''5'')])],
        extra_fields = JNull, req_headers = JUndefined\<rparr>]"
  by (simp add: restoreTrashedFolder_def request_def string_of_int_def string_of_nat_digit
        digit_char_def)

theorem restoreTrashedFolder_id_unchecked_dispatches:
  "dispatches (restoreTrashedFolder (JStr ''abc'') (JStr ''docs'') (JNum (Fin 5)) JUndefined) \<noteq> []"
  using restoreTrashedFolder_id_unchecked by (simp add: dispatches_def)

section \<open>Numbers and \<open>parseInt\<close>\<close>

lemma digit_cases: "d < 10 \<Longrightarrow> d \<in> {0, 1, 2, 3, 4, 5, 6, 7, 8, 9::nat}"
  by auto

lemma digit_char_is_digit: "d < 10 \<Longrightarrow> is_digit (digit_char d)"
  using digit_cases [of d] by (auto simp: is_digit_def digit_char_def)

lemma digit_char_value: "d < 10 \<Longrightarrow> of_char (digit_char d) - 48 = d"
  using digit_cases [of d] by (auto simp: digit_char_def)

lemma digit_char_not_space: "d < 10 \<Longrightarrow> \<not> is_space (digit_char d)"
  using digit_cases [of d] by (auto simp: is_space_def digit_char_def)

lemma digit_char_not_sign: "d < 10 \<Longrightarrow> digit_char d \<noteq> CHR ''+'' \<and> digit_char d \<noteq> CHR ''-''"
  using digit_cases [of d] by (auto simp: digit_char_def)

lemma digits_value_snoc: "digits_value (ds @ [c]) = 10 * digits_value ds + (of_char c - 48)"
  by (simp add: digits_value_def)

lemma string_of_nat_props:
  "string_of_nat n \<noteq> [] \<and> list_all is_digit (string_of_nat n) \<and> digits_value (string_of_nat n) = n"
proof (induction n rule: string_of_nat.induct)
  case (1 n)
  show ?case
  proof (cases "n < 10")
    case True
    then show ?thesis
      by (simp add: string_of_nat.simps [of n] digit_char_is_digit digit_char_value digits_value_def)
  next
    case False
    with 1 show ?thesis
      by (simp add: string_of_nat.simps [of n] digit_char_is_digit digit_char_value digits_value_snoc)
  qed
qed

lemma takeWhile_all: "list_all P xs \<Longrightarrow> takeWhile P xs = xs"
  by (induction xs) auto

lemma all_digits:
  assumes "list_all is_digit s" and "s \<noteq> []"
  shows "dropWhile is_space s = s" and "hd s \<noteq> CHR ''-''" and "hd s \<noteq> CHR ''+''"
    and "takeWhile is_digit s = s"
proof -
  from assms obtain d ds where s: "s = d # ds" "is_digit d" by (cases s) auto
  then show "dropWhile is_space s = s" "hd s \<noteq> CHR ''-''" "hd s \<noteq> CHR ''+''"
    by (auto simp: is_digit_def is_space_def)
  from assms(1) show "takeWhile is_digit s = s" by (rule takeWhile_all)
qed

lemma parseInt_nat: "parseInt (JNum (Fin (int n))) = Fin (int n)"
proof -
  have a: "list_all is_digit (string_of_nat n)" and b: "string_of_nat n \<noteq> []"
    and c: "digits_value (string_of_nat n) = n"
    using string_of_nat_props [of n] by simp_all
  show ?thesis
    by (simp add: parseInt_def string_of_int_def Let_def all_digits [OF a b] b c)
qed

lemma parseInt_neg: "0 < n \<Longrightarrow> parseInt (JNum (Fin (- int n))) = Fin (- int n)"
proof -
  assume n: "0 < n"
  have a: "list_all is_digit (string_of_nat n)" and b: "string_of_nat n \<noteq> []"
    and c: "digits_value (string_of_nat n) = n"
    using string_of_nat_props [of n] by simp_all
  from n show ?thesis
    by (simp add: parseInt_def string_of_int_def Let_def all_digits [OF a b] b c is_space_def)
qed

lemma parseInt_number: "parseInt (JNum (Fin p)) = Fin p"
proof (cases "p < 0")
  case False
  then have "p = int (nat p)" by simp
  then show ?thesis using parseInt_nat [of "nat p"] by simp
next
  case True
  then have "p = - int (nat (- p))" and "0 < nat (- p)" by simp_all
  then show ?thesis using parseInt_neg [of "nat (- p)"] by simp
qed

lemma parseInt_http: "parseInt (JStr ''http'') = NaN"
  by (simp add: parseInt_def is_space_def is_digit_def)

lemmas init_eval = init_def Let_def obj_get_def inherited_def object_prototype_keys_def js_or_def
  blank_box_def parseInt_number

section \<open>Validation in the constructor\<close>

lemma init_port_check_passes:
  "init opts logLevel logStream \<noteq> Inl (JErr ''Must specify a numeric port'')"
  by (simp add: init_def Let_def)

lemma init_requires_client_id:
  "truthy opts \<Longrightarrow> \<not> truthy (get_prop opts ''client_id'') \<Longrightarrow>
     init opts logLevel logStream = Inl (JErr ''Must specify a client_id'')"
  by (simp add: init_def)

lemma init_requires_client_secret:
  "truthy opts \<Longrightarrow> truthy (get_prop opts ''client_id'') \<Longrightarrow>
   \<not> truthy (get_prop opts ''client_secret'') \<Longrightarrow>
     init opts logLevel logStream = Inl (JErr ''Must specify a client_secret'')"
  by (simp add: init_def)

text \<open>
  Claim C7. Construction with options throws before any network call when \<open>client_id\<close>
  or \<open>client_secret\<close> is missing (the two lemmas above), and is meant to throw when the
  port is not numeric. The port check cannot fail: \<open>parseInt\<close> always yields a number,
  \<open>NaN\<close> included, and \<open>_.isNumber(NaN)\<close> is true. With the port \<open>'http'\<close> the
  constructor returns a client whose port is \<open>NaN\<close> and posts to the token endpoint.
\<close>

theorem init_accepts_non_numeric_port:
  "init (JObj [(''client_id'', JStr ''abc''), (''client_secret'', JStr ''xyz''),
               (''port'', JStr ''http'')]) JUndefined JUndefined =
     Inr (blank_box\<lparr>port := JNum NaN, host := JStr ''localhost'',
            log := Some \<lparr>log_level = JStr ''info'', log_stream = JUndefined\<rparr>,
            client_id := JStr ''abc'', client_secret := JStr ''xyz''\<rparr>,
          [Http_post ''https://app.box.com/api/oauth2/token''
             (JObj [(''client_id'', JStr ''abc''), (''client_secret'', JStr ''xyz''),
                    (''grant_type'', JStr ''refresh_token''), (''refresh_token'', JUndefined)])
             True])"
  by (simp add: init_def Let_def obj_get_def inherited_def object_prototype_keys_def js_or_def
        parseInt_http blank_box_def)

section \<open>The token request at construction\<close>

text \<open>
  Claim C5, as stated: a standalone client posts to the token endpoint at construction
  if and only if a \<open>refresh_token\<close> was configured. It fails: options without a
  \<open>refresh_token\<close> still produce the POST, whose \<open>refresh_token\<close> field is
  \<open>undefined\<close>.
\<close>

theorem init_posts_without_refresh_token:
  "get_prop (JObj [(''client_id'', JStr ''abc''), (''client_secret'', JStr ''xyz''),
               (''port'', JNum (Fin 9999))]) ''refresh_token'' = JUndefined \<and>
   init (JObj [(''client_id'', JStr ''abc''), (''client_secret'', JStr ''xyz''),
               (''port'', JNum (Fin 9999))]) JUndefined JUndefined =
     Inr (blank_box\<lparr>port := JNum (Fin 9999), host := JStr ''localhost'',
            log := Some \<lparr>log_level = JStr ''info'', log_stream = JUndefined\<rparr>,
            client_id := JStr ''abc'', client_secret := JStr ''xyz''\<rparr>,
          [Http_post ''https://app.box.com/api/oauth2/token''
             (JObj [(''client_id'', JStr ''abc''), (''client_secret'', JStr ''xyz''),
                    (''grant_type'', JStr ''refresh_token''), (''refresh_token'', JUndefined)])
             True])"
  by (simp add: init_eval)

text \<open>
  Claim C5, amended. A construction that succeeds issues exactly one POST to the token
  endpoint with \<open>grant_type refresh_token\<close> when options were given, whether or not
  they hold a \<open>refresh_token\<close> (the form carries whatever \<open>opts.refresh_token\<close>
  is), and issues nothing when no options were given.
\<close>

theorem init_token_post:
  assumes "init opts logLevel logStream = Inr (b, tr)"
  shows "tr = (if truthy opts
               then [Http_post ''https://app.box.com/api/oauth2/token''
                       (JObj [(''client_id'', get_prop opts ''client_id''),
                              (''client_secret'', get_prop opts ''client_secret''),
                              (''grant_type'', JStr ''refresh_token''),
                              (''refresh_token'', get_prop opts ''refresh_token'')])
                       True]
               else [])"
  using assms by (auto simp: init_def Let_def split: if_splits)

theorem init_token_post_witness:
  "snd (projr (init (JObj [(''client_id'', JStr ''id''), (''client_secret'', JStr ''secret''),
               (''port'', JNum (Fin 9999)), (''refresh_token'', JStr ''R0'')]) (JStr ''debug'') JUndefined)) =
     [Http_post ''https://app.box.com/api/oauth2/token''
        (JObj [(''client_id'', JStr ''id''), (''client_secret'', JStr ''secret''),
               (''grant_type'', JStr ''refresh_token''), (''refresh_token'', JStr ''R0'')]) True]"
proof -
  let ?opts = "JObj [(''client_id'', JStr ''id''), (''client_secret'', JStr ''secret''),
               (''port'', JNum (Fin 9999)), (''refresh_token'', JStr ''R0'')]"
  obtain b tr where r: "init ?opts (JStr ''debug'') JUndefined = Inr (b, tr)"
    by (simp add: init_eval)
  from init_token_post [OF r] r show ?thesis
    by (simp add: obj_get_def)
qed

section \<open>Stopping the listener\<close>

lemma init_no_server: "init opts logLevel logStream = Inr (b, tr) \<Longrightarrow> server b = None"
  by (auto simp: init_def Let_def blank_box_def split: if_splits)

lemma stopServer_not_started: "server b = None \<Longrightarrow> stopServer b cb = (b, [], None)"
  by (simp add: stopServer_def)

text \<open>
  Claim C3. \<open>stopServer(callback)\<close> on a client whose server was never started should
  call the callback with no error. The code does nothing at all in that case: the callback
  is never called. The constructor never starts a server, so this is what happens for the
  client the integration test builds and then stops in its \<open>after\<close> hook.
\<close>

theorem stopServer_never_started_silent:
  "(case init (JObj [(''client_id'', JStr ''abc''), (''client_secret'', JStr ''xyz''),
               (''port'', JNum (Fin 9999))]) (JStr ''debug'') JUndefined of
      Inl e \<Rightarrow> False
    | Inr (b, tr) \<Rightarrow> server b = None \<and> stopServer b (\<lambda>args. Inr JUndefined) = (b, [], None))"
  by (simp add: init_eval stopServer_def)

text \<open>
  Claim C4. On a client whose server is running (such a client has a log),
  \<open>stopServer(callback)\<close> closes the server, destroys every tracked socket, and then
  calls the callback with no argument: the trace is the log line, the close, one destroy
  per tracked socket, then the callback; every tracked socket is destroyed in the resulting
  client. The callback is called a second time, with the exception, only if its first call
  throws.
\<close>

theorem stopServer_running:
  assumes "server b = Some srv" and "listening srv" and "log b = Some lg"
    and "stopServer b cb = (b', tr, exn)"
  shows "server b' = Some (srv\<lparr>listening := False\<rparr>) \<and>
         map fst (tracked b') = map fst (tracked b) \<and>
         list_all (\<lambda>(k, so). destroyed so) (tracked b') \<and>
         tr = [Log_debug ''Stopping server...'', Server_close]
                @ map Socket_destroy (map fst (tracked b))
                @ [Done_called []]
                @ (case cb [] of Inr v \<Rightarrow> [] | Inl err \<Rightarrow> [Done_called [err]])"
  using assms
  by (auto simp: stopServer_def server_close_def tracked_def destroy_all_def socket_destroy_def
        list_all_iff Let_def comp_def case_prod_unfold
        split: option.splits sum.splits)

theorem stopServer_running_witness:
  "(let b = blank_box\<lparr>log := Some \<lparr>log_level = JStr ''debug'', log_stream = JUndefined\<rparr>,
                        server := Some \<lparr>listening = True\<rparr>,
                        sockets := Some [(''1'', \<lparr>destroyed = False\<rparr>), (''2'', \<lparr>destroyed = False\<rparr>)]\<rparr>;
        r = stopServer b (\<lambda>args. Inr JUndefined)
    in server b = Some \<lparr>listening = True\<rparr> \<and>
       server (fst r) = Some \<lparr>listening = False\<rparr> \<and>
       tracked (fst r) = [(''1'', \<lparr>destroyed = True\<rparr>), (''2'', \<lparr>destroyed = True\<rparr>)] \<and>
       fst (snd r) = [Log_debug ''Stopping server...'', Server_close, Socket_destroy ''1'',
                      Socket_destroy ''2'', Done_called []])"
proof -
  let ?b = "blank_box\<lparr>log := Some \<lparr>log_level = JStr ''debug'', log_stream = JUndefined\<rparr>,
                        server := Some \<lparr>listening = True\<rparr>,
                        sockets := Some [(''1'', \<lparr>destroyed = False\<rparr>), (''2'', \<lparr>destroyed = False\<rparr>)]\<rparr>"
  let ?r = "stopServer ?b (\<lambda>args. Inr JUndefined)"
  have call: "?r = (fst ?r, fst (snd ?r), snd (snd ?r))" by simp
  have srv: "server ?b = Some \<lparr>listening = True\<rparr>" by simp
  have lg: "log ?b = Some \<lparr>log_level = JStr ''debug'', log_stream = JUndefined\<rparr>" by simp
  have socks: "tracked (fst ?r) = [(''1'', \<lparr>destroyed = True\<rparr>), (''2'', \<lparr>destroyed = True\<rparr>)]"
    by (simp add: stopServer_def server_close_def destroy_all_def socket_destroy_def tracked_def)
  from stopServer_running [OF srv _ lg call] socks show ?thesis
    by (simp add: tracked_def Let_def)
qed

section \<open>The connection registry\<close>

lemma update_absent: "map_of al k = None \<Longrightarrow> AList.update k v al = al @ [(k, v)]"
  by (induction al) (auto split: if_splits)

lemma set_update_subset: "set (AList.update k v al) \<subseteq> insert (k, v) (set al)"
  by (induction al) auto

lemma valid_ref_mono: "valid_ref h v \<Longrightarrow> valid_ref (h @ h') v"
  by (cases v) auto

lemma wf_lookup:
  assumes "wf_box s" and "map_of (connections s) k = Some v"
  shows "\<exists>r. v = JRef r \<and> r < length (heap s)"
proof -
  from assms(2) have "(k, v) \<in> set (connections s)" by (rule map_of_SomeD)
  with assms(1) have "valid_ref (heap s) v" by (auto simp: wf_box_def list_all_iff)
  then show ?thesis by (cases v) auto
qed

lemma getConnection_existing:
  "map_of (connections s) (to_key e) = Some (JRef r) \<Longrightarrow> getConnection s e = (JRef r, s)"
  by (simp add: getConnection_def obj_get_def)

lemma getConnection_new:
  assumes "map_of (connections s) (to_key e) = None" and "to_key e \<notin> set object_prototype_keys"
  shows "getConnection s e =
           (JRef (length (heap s)),
            s\<lparr>heap := heap s @ [new_connection e],
              connections := connections s @ [(to_key e, JRef (length (heap s)))]\<rparr>)"
  using assms by (simp add: getConnection_def obj_get_def inherited_def Let_def update_absent)

lemma getConnection_keeps:
  assumes "map_of (connections s) k = Some (JRef r)"
  shows "map_of (connections (snd (getConnection s e))) k = Some (JRef r)"
proof (cases "truthy (obj_get (connections s) (to_key e))")
  case True
  then show ?thesis using assms by (simp add: getConnection_def)
next
  case False
  with assms have "to_key e \<noteq> k" by (auto simp: obj_get_def)
  with False assms show ?thesis by (simp add: getConnection_def Let_def update_conv')
qed

lemma getConnection_heap: "\<exists>h. heap (snd (getConnection s e)) = heap s @ h"
  by (simp add: getConnection_def Let_def)

lemma getConnection_wf:
  assumes "wf_box s"
  shows "wf_box (snd (getConnection s e))"
proof (cases "truthy (obj_get (connections s) (to_key e))")
  case True
  then show ?thesis using assms by (simp add: getConnection_def)
next
  case False
  have "valid_ref (heap s @ [new_connection e]) v"
    if "(k, v) \<in> set (AList.update (to_key e) (JRef (length (heap s))) (connections s))" for k v
  proof -
    from that set_update_subset
    have "(k, v) = (to_key e, JRef (length (heap s))) \<or> (k, v) \<in> set (connections s)"
      by fastforce
    then show ?thesis
    proof
      assume "(k, v) = (to_key e, JRef (length (heap s)))"
      then show ?thesis by simp
    next
      assume "(k, v) \<in> set (connections s)"
      with assms have "valid_ref (heap s) v" by (auto simp: wf_box_def list_all_iff)
      then show ?thesis by (rule valid_ref_mono)
    qed
  qed
  with False show ?thesis
    by (auto simp: getConnection_def Let_def wf_box_def list_all_iff)
qed

lemma getConnections_keeps:
  "map_of (connections s) k = Some (JRef r) \<Longrightarrow>
     map_of (connections (getConnections s es)) k = Some (JRef r)"
  by (induction es arbitrary: s) (auto simp: getConnection_keeps)

lemma getConnections_heap: "\<exists>h. heap (getConnections s es) = heap s @ h"
proof (induction es arbitrary: s)
  case Nil
  show ?case by simp
next
  case (Cons e es)
  obtain h1 where h1: "heap (snd (getConnection s e)) = heap s @ h1"
    using getConnection_heap by blast
  obtain h2 where "heap (getConnections (snd (getConnection s e)) es) = heap (snd (getConnection s e)) @ h2"
    using Cons.IH by blast
  with h1 show ?case by simp
qed

lemma getConnections_wf: "wf_box s \<Longrightarrow> wf_box (getConnections s es)"
  by (induction es arbitrary: s) (auto simp: getConnection_wf)

lemma init_wf: "init opts logLevel logStream = Inr (b, tr) \<Longrightarrow> wf_box b"
  by (auto simp: init_def Let_def blank_box_def wf_box_def split: if_splits)

lemma getConnection_result:
  assumes wf: "wf_box s" and k: "to_key e \<notin> set object_prototype_keys"
    and call: "getConnection s e = (c, s1)"
  shows "\<exists>r. c = JRef r \<and> r < length (heap s1) \<and> map_of (connections s1) (to_key e) = Some (JRef r)
           \<and> email (heap s1 ! r) = (if map_of (connections s) (to_key e) = None then e else email (heap s ! r))"
proof (cases "map_of (connections s) (to_key e)")
  case None
  from getConnection_new [OF None k] call show ?thesis
    using None by (auto simp: new_connection_def map_add_def)
next
  case (Some v)
  with wf obtain r where "v = JRef r" "r < length (heap s)" using wf_lookup by blast
  with Some getConnection_existing [of s e r] call show ?thesis by auto
qed


lemma email_not_inherited: "CHR ''@'' \<in> set s \<Longrightarrow> s \<notin> set object_prototype_keys"
  by (auto simp: object_prototype_keys_def)

text \<open>
  Claim C2. \<open>getConnection\<close> is an idempotent lookup-or-create. For a well-formed client
  and an identifier whose key is not the name of a property the registry object inherits
  (no e-mail address is, see \<open>email_not_inherited\<close>): the call returns a Connection; if
  the registry had no entry for the identifier, that Connection is new, bound to the
  identifier, and stored under it, and otherwise the client is unchanged; and every later
  call with the identifier, directly or after calls for any other identifiers, returns the
  same reference, to the same object, and leaves the client as it was.
\<close>

theorem getConnection_idempotent:
  assumes wf: "wf_box s" and k: "to_key e \<notin> set object_prototype_keys"
    and call: "getConnection s e = (c, s1)"
  shows "(\<exists>r. c = JRef r \<and> r < length (heap s1) \<and>
              heap (getConnections s1 es) ! r = heap s1 ! r) \<and>
         (if map_of (connections s) (to_key e) = None
          then c = JRef (length (heap s)) \<and>
               heap s1 = heap s @ [new_connection e] \<and>
               connections s1 = connections s @ [(to_key e, c)]
          else s1 = s) \<and>
         getConnection s1 e = (c, s1) \<and>
         getConnection (getConnections s1 es) e = (c, getConnections s1 es)"
proof -
  from getConnection_result [OF wf k call] obtain r where
    r: "c = JRef r" "r < length (heap s1)" "map_of (connections s1) (to_key e) = Some (JRef r)"
    by blast
  have first: "if map_of (connections s) (to_key e) = None
          then c = JRef (length (heap s)) \<and>
               heap s1 = heap s @ [new_connection e] \<and>
               connections s1 = connections s @ [(to_key e, c)]
          else s1 = s"
  proof (cases "map_of (connections s) (to_key e)")
    case None
    from getConnection_new [OF None k] call None show ?thesis by auto
  next
    case (Some v)
    with wf obtain r' where "v = JRef r'" using wf_lookup by blast
    with Some getConnection_existing [of s e r'] call show ?thesis by auto
  qed
  have again: "getConnection s1 e = (c, s1)"
    using getConnection_existing [OF r(3)] r(1) by simp
  have later: "getConnection (getConnections s1 es) e = (c, getConnections s1 es)"
    using getConnection_existing [OF getConnections_keeps [OF r(3)]] r(1) by simp
  obtain h where "heap (getConnections s1 es) = heap s1 @ h"
    using getConnections_heap by blast
  with r(2) have same: "heap (getConnections s1 es) ! r = heap s1 ! r"
    by (simp add: nth_append)
  from r same first again later show ?thesis by blast
qed

theorem getConnection_idempotent_witness:
  "(let e = JStr ''user@example.com'';
        es = [JStr ''other@example.com'', JStr ''constructor'', JStr ''user@example.com''];
        s1 = snd (getConnection blank_box e)
    in wf_box blank_box \<and> to_key e \<notin> set object_prototype_keys \<and>
       getConnection blank_box e = (JRef 0, s1) \<and>
       heap s1 = [new_connection e] \<and>
       connections s1 = [(''user@example.com'', JRef 0)] \<and>
       getConnection s1 e = (JRef 0, s1) \<and>
       getConnection (getConnections s1 es) e = (JRef 0, getConnections s1 es))"
proof -
  let ?e = "JStr ''user@example.com''"
  let ?es = "[JStr ''other@example.com'', JStr ''constructor'', JStr ''user@example.com'']"
  let ?s1 = "snd (getConnection blank_box ?e)"
  have wf: "wf_box blank_box" by (simp add: wf_box_def blank_box_def)
  have k: "to_key ?e \<notin> set object_prototype_keys" by (simp add: object_prototype_keys_def)
  have call: "getConnection blank_box ?e = (JRef 0, ?s1)"
    by (simp add: getConnection_def blank_box_def obj_get_def inherited_def object_prototype_keys_def
          Let_def)
  have none: "map_of (connections blank_box) (to_key ?e) = None" by (simp add: blank_box_def)
  from getConnection_idempotent [OF wf k call, of ?es] none wf k call show ?thesis
    by (simp add: Let_def blank_box_def)
qed

section \<open>The authentication callback\<close>

lemma setTokens_no_done: "filter is_done (snd (setTokens c tokens)) = []"
  by (simp add: setTokens_def filter_empty_conv)

text \<open>
  Claim C10. The callback returned by \<open>authenticate()\<close>, called with
  \<open>(access_token, refresh_token, profile, done)\<close> on a well-formed client, with a
  profile that is an object and a login whose key the registry object does not inherit:
  the Connection is the one \<open>getConnection\<close> yields for \<open>profile.login\<close> (created if
  it was not there), it is registered under that login, both tokens are stored on it, and
  \<open>done\<close> is called exactly once, with \<open>(null, profile)\<close>, its result being the
  result of the call.
\<close>

theorem authenticate_stores_tokens:
  assumes wf: "wf_box s" and p: "\<not> nullish profile"
    and k: "to_key (get_prop profile ''login'') \<notin> set object_prototype_keys"
    and call: "authenticate s a_token r_token profile done = (s', tr, res)"
  shows "\<exists>r s1. getConnection s (get_prop profile ''login'') = (JRef r, s1) \<and>
           r < length (heap s') \<and>
           obj_get (connections s') (to_key (get_prop profile ''login'')) = JRef r \<and>
           access_token (heap s' ! r) = a_token \<and>
           conn_refresh_token (heap s' ! r) = r_token \<and>
           filter is_done tr = [Done_called [JNull, profile]] \<and>
           res = done [JNull, profile]"
proof -
  obtain c s1 where g: "getConnection s (get_prop profile ''login'') = (c, s1)"
    by (cases "getConnection s (get_prop profile ''login'')") auto
  from getConnection_result [OF wf k g] obtain r where
    r: "c = JRef r" "r < length (heap s1)"
       "map_of (connections s1) (to_key (get_prop profile ''login'')) = Some (JRef r)"
    by blast
  let ?tokens = "JObj [(''access_token'', a_token), (''refresh_token'', r_token)]"
  obtain c' evs where st: "setTokens (heap s1 ! r) ?tokens = (c', evs)"
    by (cases "setTokens (heap s1 ! r) ?tokens") auto
  from call p g r(1) st have
    s': "s' = s1\<lparr>heap := (heap s1)[r := c']\<rparr>" and
    tr: "tr = evs @ [Done_called [JNull, profile]]" and
    res: "res = done [JNull, profile]"
    by (simp_all add: authenticate_def Let_def)
  from st have c': "access_token c' = a_token" "conn_refresh_token c' = r_token"
    by (auto simp: setTokens_def obj_get_def)
  from setTokens_no_done [of "heap s1 ! r" ?tokens] st have "filter is_done evs = []"
    by simp
  with tr have "filter is_done tr = [Done_called [JNull, profile]]" by simp
  with g r s' c' res show ?thesis by (auto simp: obj_get_def)
qed

theorem authenticate_stores_tokens_witness:
  "(let profile = JObj [(''login'', JStr ''user@example.com''), (''name'', JStr ''U'')];
        r = authenticate blank_box (JStr ''T1'') (JStr ''R1'') profile (\<lambda>args. Inr JUndefined)
    in wf_box blank_box \<and> \<not> nullish profile \<and>
       obj_get (connections (fst r)) ''user@example.com'' = JRef 0 \<and>
       access_token (heap (fst r) ! 0) = JStr ''T1'' \<and>
       conn_refresh_token (heap (fst r) ! 0) = JStr ''R1'' \<and>
       filter is_done (fst (snd r)) = [Done_called [JNull, profile]])"
proof -
  let ?p = "JObj [(''login'', JStr ''user@example.com''), (''name'', JStr ''U'')]"
  let ?r = "authenticate blank_box (JStr ''T1'') (JStr ''R1'') ?p (\<lambda>args. Inr JUndefined)"
  have wf: "wf_box blank_box" by (simp add: wf_box_def blank_box_def)
  have p: "\<not> nullish ?p" by (simp add: nullish_def)
  have login: "get_prop ?p ''login'' = JStr ''user@example.com''" by (simp add: obj_get_def)
  have k: "to_key (get_prop ?p ''login'') \<notin> set object_prototype_keys"
    unfolding login by (simp add: object_prototype_keys_def)
  have call: "?r = (fst ?r, fst (snd ?r), snd (snd ?r))" by simp
  have g: "fst (getConnection blank_box (JStr ''user@example.com'')) = JRef 0"
    by (simp add: getConnection_def blank_box_def obj_get_def inherited_def object_prototype_keys_def
          Let_def)
  from authenticate_stores_tokens [OF wf p k call] obtain r s1 where
    r: "getConnection blank_box (get_prop ?p ''login'') = (JRef r, s1)"
       "obj_get (connections (fst ?r)) (to_key (get_prop ?p ''login'')) = JRef r"
       "access_token (heap (fst ?r) ! r) = JStr ''T1''"
       "conn_refresh_token (heap (fst ?r) ! r) = JStr ''R1''"
       "filter is_done (fst (snd ?r)) = [Done_called [JNull, ?p]]"
    by blast
  from r(1) g have "r = 0" unfolding login by simp
  with r wf p show ?thesis unfolding login Let_def by simp
qed

section \<open>The response to the token request\<close>

lemma token_response_needs_ehgt:
  "map_of (connections b) ''ehgt'' = None \<Longrightarrow> \<exists>tr e. token_response b err body = (b, tr, Some e)"
  by (simp add: token_response_def obj_get_def inherited_def object_prototype_keys_def Let_def)

text \<open>
  Claim C6. The outcome of the startup token exchange should reach the session of the
  account whose refresh token was used, and never escape as an exception. The callback
  looks the Connection up under the fixed key \<open>'ehgt'\<close>. For a client configured with
  a refresh token on which only \<open>user@example.com\<close> has a Connection, both a successful
  response and a failed one end in a TypeError thrown from the callback, and neither
  changes the client: no token is stored and no waiter is notified.
\<close>

theorem token_response_uncaught:
  "(case init (JObj [(''client_id'', JStr ''abc''), (''client_secret'', JStr ''xyz''),
               (''port'', JNum (Fin 9999)), (''refresh_token'', JStr ''R0'')]) JUndefined JUndefined of
      Inl e \<Rightarrow> False
    | Inr (b0, tr) \<Rightarrow>
        (let (c, b1) = getConnection b0 (JStr ''user@example.com'');
             tokens = JObj [(''access_token'', JStr ''T1''), (''refresh_token'', JStr ''R1'')]
         in c = JRef 0 \<and> heap b1 ! 0 = new_connection (JStr ''user@example.com'') \<and>
            token_response b1 JNull tokens =
              (b1, [Console_log [JStr (CHR 0x0A # ''TOKEN REFRESH: ''), tokens, JStr [CHR 0x0A]]],
               Some (JTypeError ''Cannot call method _setTokens of undefined'')) \<and>
            token_response b1 (JErr ''connect ECONNREFUSED'') JUndefined =
              (b1, [Console_log [JStr (CHR 0x0A # ''TOKEN REFRESH: ''), JUndefined, JStr [CHR 0x0A]]],
               Some (JTypeError ''Cannot call method emit of undefined''))))"
  by (simp add: init_eval getConnection_def token_response_def)

section \<open>Waiters of a session\<close>

lemma count_notified_append:
  "count_notified cb (xs @ ys) = count_notified cb xs + count_notified cb ys"
  by (simp add: count_notified_def)

lemma count_notified_map: "count_notified cb (map (\<lambda>w. Waiter_notified w args) ws) = count_list ws cb"
  by (induction ws) (auto simp: count_notified_def)

lemma session_step_conservation:
  assumes "session_step c x = (c1, tr1)"
  shows "count_notified cb tr1 + count_list (waiters c1) cb =
         count_list (waiters c) cb + (if x = Ready cb then 1 else 0)"
proof (cases x)
  case (Ready cb')
  with assms show ?thesis
    by (auto simp: ready_def count_notified_def split: if_splits)
next
  case Begin_exchange
  with assms show ?thesis by (auto simp: begin_exchange_def count_notified_def)
next
  case (Set_tokens tokens)
  with assms show ?thesis by (auto simp: setTokens_def count_notified_map)
next
  case (Tokens_error err)
  with assms show ?thesis by (auto simp: emit_tokens_error_def count_notified_map)
qed

lemma run_session_conservation:
  "run_session c xs = (c', tr) \<Longrightarrow>
     count_notified cb tr + count_list (waiters c') cb =
     count_list (waiters c) cb + count_list xs (Ready cb)"
proof (induction xs arbitrary: c c' tr)
  case Nil
  then show ?case by (simp add: count_notified_def)
next
  case (Cons x xs)
  obtain c1 tr1 where s: "session_step c x = (c1, tr1)" by (cases "session_step c x") auto
  obtain c2 tr2 where r: "run_session c1 xs = (c2, tr2)" by (cases "run_session c1 xs") auto
  from Cons.prems s r have eq: "c' = c2" "tr = tr1 @ tr2" by simp_all
  from Cons.IH [OF r] session_step_conservation [OF s, of cb] eq
  show ?case by (auto simp: count_notified_append)
qed

lemma run_session_append:
  "run_session c (xs @ ys) =
     (let (c1, tr1) = run_session c xs; (c2, tr2) = run_session c1 ys in (c2, tr1 @ tr2))"
  by (induction xs arbitrary: c) (auto simp: Let_def split: prod.splits)

lemma run_session_pending:
  assumes "token_state c \<noteq> READY" and "\<forall>x \<in> set pre. \<not> terminal x"
    and "run_session c pre = (c', tr)"
  shows "tr = [] \<and> waiters c' = waiters c @ registered pre \<and> token_state c' \<noteq> READY"
  using assms
proof (induction pre arbitrary: c c' tr)
  case Nil
  then show ?case by simp
next
  case (Cons x xs)
  obtain c1 tr1 where s: "session_step c x = (c1, tr1)" by (cases "session_step c x") auto
  obtain c2 tr2 where r: "run_session c1 xs = (c2, tr2)" by (cases "run_session c1 xs") auto
  from Cons.prems(3) s r have eq: "c' = c2" "tr = tr1 @ tr2" by simp_all
  from Cons.prems(1,2) s have
    step: "tr1 = [] \<and> token_state c1 \<noteq> READY \<and> waiters c1 @ registered xs = waiters c @ registered (x # xs)"
    by (cases x) (auto simp: ready_def begin_exchange_def)
  with Cons.IH [OF _ _ r] Cons.prems(2) eq show ?case by auto
qed

lemma terminal_step:
  "terminal t \<Longrightarrow> session_step c t = (c1, tr1) \<Longrightarrow>
     waiters c1 = [] \<and> tr1 = map (\<lambda>cb. Waiter_notified cb (terminal_args t)) (waiters c)"
  by (cases t) (auto simp: setTokens_def emit_tokens_error_def)

text \<open>
  Claim C9. Take a session that is not READY and has no waiter, any operations \<open>pre\<close>
  none of which completes an exchange, a transition \<open>t\<close> to READY or ERROR, and any
  later operations that do not register the callback \<open>cb\<close> again. Nothing is notified
  during \<open>pre\<close>; at \<open>t\<close> the callbacks registered in \<open>pre\<close> are notified, each
  once per registration and in order, with the error as argument on ERROR; no waiter
  remains registered after \<open>t\<close>; and over the whole run, later refreshes included,
  \<open>cb\<close> is notified exactly as often as it was registered in \<open>pre\<close>.
\<close>

theorem ready_waiters_notified_once:
  assumes "token_state c \<noteq> READY" and "waiters c = []"
    and "\<forall>x \<in> set pre. \<not> terminal x" and "terminal t" and "Ready cb \<notin> set later"
  shows "snd (run_session c pre) = [] \<and>
         snd (run_session c (pre @ [t])) =
           map (\<lambda>w. Waiter_notified w (terminal_args t)) (registered pre) \<and>
         waiters (fst (run_session c (pre @ [t]))) = [] \<and>
         count_notified cb (snd (run_session c (pre @ [t] @ later))) = count_list (registered pre) cb"
proof -
  obtain c1 tr1 where p: "run_session c pre = (c1, tr1)" by (cases "run_session c pre") auto
  obtain c2 tr2 where t: "session_step c1 t = (c2, tr2)" by (cases "session_step c1 t") auto
  obtain c3 tr3 where l: "run_session c2 later = (c3, tr3)" by (cases "run_session c2 later") auto
  from run_session_pending [OF assms(1) assms(3) p] assms(2)
  have p': "tr1 = []" "waiters c1 = registered pre" by simp_all
  from terminal_step [OF assms(4) t] p'
  have t': "waiters c2 = []" "tr2 = map (\<lambda>w. Waiter_notified w (terminal_args t)) (registered pre)"
    by simp_all
  from assms(5) have "count_list later (Ready cb) = 0" by (simp add: count_list_0_iff)
  with run_session_conservation [OF l, of cb] t'(1) have l': "count_notified cb tr3 = 0" by simp
  have r1: "run_session c (pre @ [t]) = (c2, tr1 @ tr2)"
    using p t by (simp add: run_session_append)
  have r2: "run_session c (pre @ [t] @ later) = (c3, tr1 @ tr2 @ tr3)"
    using p t l by (simp add: run_session_append)
  from p p' r1 r2 t' l' show ?thesis
    by (simp add: count_notified_append count_notified_map)
qed

theorem ready_waiters_notified_once_witness:
  "(let c = new_connection (JStr ''user@example.com'');
        pre = [Begin_exchange, Ready 1, Ready 2];
        t = Set_tokens (JObj [(''access_token'', JStr ''T1''), (''refresh_token'', JStr ''R1'')]);
        later = [Begin_exchange, Tokens_error (JErr ''expired''), Ready 2, Begin_exchange, t]
    in token_state c \<noteq> READY \<and> waiters c = [] \<and> terminal t \<and> Ready 1 \<notin> set later \<and>
       snd (run_session c (pre @ [t])) = [Waiter_notified 1 [], Waiter_notified 2 []] \<and>
       count_notified 1 (snd (run_session c (pre @ [t] @ later))) = 1)"
proof -
  let ?c = "new_connection (JStr ''user@example.com'')"
  let ?pre = "[Begin_exchange, Ready 1, Ready 2]"
  let ?t = "Set_tokens (JObj [(''access_token'', JStr ''T1''), (''refresh_token'', JStr ''R1'')])"
  let ?later = "[Begin_exchange, Tokens_error (JErr ''expired''), Ready 2, Begin_exchange, ?t]"
  have a: "token_state ?c \<noteq> READY" and b: "waiters ?c = []" by (simp_all add: new_connection_def)
  have c: "\<forall>x \<in> set ?pre. \<not> terminal x" by simp
  have d: "terminal ?t" by simp
  have e: "Ready 1 \<notin> set ?later" by simp
  from ready_waiters_notified_once [OF a b c d e] a b d e show ?thesis
    by (simp add: Let_def)
qed

section \<open>The authorization URL\<close>

text \<open>
  Claim C8. For a client constructed from options with a numeric port, the authorization
  URL is the endpoint followed by \<open>response_type=code\<close>, the configured
  \<open>client_id\<close> as the \<open>client_id\<close> parameter and, as \<open>redirect_uri\<close>, an
  \<open>http\<close> URL on the configured host (\<open>localhost\<close> when none is given) and port; and
  it is determined by the configuration: any client with the same \<open>client_id\<close>, host
  and port yields the same URL.
\<close>

theorem getAuthURL_from_config:
  assumes "init opts logLevel logStream = Inr (b, tr)" and "truthy opts"
    and "get_prop opts ''port'' = JNum (Fin p)"
  shows "getAuthURL ep path b =
           ep @ ''?response_type=code&client_id='' @ to_key (get_prop opts ''client_id'')
              @ ''&redirect_uri=http://'' @ to_key (js_or (get_prop opts ''host'') (JStr ''localhost''))
              @ '':'' @ string_of_int p @ path \<and>
         (\<forall>b'. client_id b' = client_id b \<and> host b' = host b \<and> port b' = port b
               \<longrightarrow> getAuthURL ep path b' = getAuthURL ep path b)"
  using assms
  by (auto simp: init_def Let_def getAuthURL_def callback_url_def parseInt_number split: if_splits)

theorem getAuthURL_from_config_witness:
  "(let opts = JObj [(''client_id'', JStr ''abc''), (''client_secret'', JStr ''xyz''),
                     (''port'', JNum (Fin 9999))]
    in truthy opts \<and>
       (case init opts JUndefined JUndefined of
          Inl e \<Rightarrow> False
        | Inr (b, tr) \<Rightarrow>
            getAuthURL ''https://app.box.com/api/oauth2/authorize'' ''/authorize'' b =
              ''https://app.box.com/api/oauth2/authorize?response_type=code&client_id=abc&redirect_uri=http://localhost:9999/authorize''))"
proof -
  let ?opts = "JObj [(''client_id'', JStr ''abc''), (''client_secret'', JStr ''xyz''),
                     (''port'', JNum (Fin 9999))]"
  obtain b tr where i: "init ?opts JUndefined JUndefined = Inr (b, tr)"
    by (simp add: init_eval)
  have t: "truthy ?opts" by simp
  have p: "get_prop ?opts ''port'' = JNum (Fin 9999)" by (simp add: obj_get_def)
  have n: "string_of_int 9999 = ''9999''"
    by (simp add: string_of_int_def string_of_nat.simps digit_char_def)
  from getAuthURL_from_config [OF i t p] i t n show ?thesis
    by (simp add: Let_def obj_get_def inherited_def object_prototype_keys_def js_or_def)
qed

end
